theory Spec2Isabelle
  imports Complex_Main
begin

section \<open>Values, columns and data frames\<close>

text \<open>
  The analyser compares two pandas data frames column by column. A cell of a column is a
  Python scalar: an \<open>int\<close>, a \<open>float\<close>, a \<open>bool\<close> or a \<open>str\<close>. Python floats are
  modelled as real numbers throughout: rounding, \<open>nan\<close> and \<open>inf\<close> are outside the model,
  except where a computation leaves the reals altogether (see \<open>npfloat\<close> below).
\<close>

datatype pyval = PInt int | PFloat real | PBool bool | PStr string

type_synonym series = "pyval list"

text \<open>
  A data frame is its columns in their native order, each with its name. The names are
  meant to be distinct, as they are in a frame built from records; a statement that
  depends on it assumes it.
\<close>

type_synonym dataframe = "(string \<times> series) list"

definition columns :: "dataframe \<Rightarrow> string list" where
  "columns df = map fst df"

datatype error =
    ValueError string
  | TypeError
  | KeyError string
  | AttributeError
  | StrategyError string

text \<open>\<open>df[field]\<close>: the column of that name, \<open>KeyError\<close> when there is none.\<close>

definition getitem :: "dataframe \<Rightarrow> string \<Rightarrow> error + series" where
  "getitem df field = (case map_of df field of None \<Rightarrow> Inl (KeyError field) | Some col \<Rightarrow> Inr col)"

section \<open>The engine\<close>

text \<open>
  \<open>ErrorAnalyzer.__init__\<close> stores the two data frames, the ignore list (the empty list
  when none is given) and the numerical strategy, which is \<open>None\<close> unless the caller
  passes one. A strategy is an object with one method, \<open>calculate_probability\<close>, that runs
  a test of \<open>scipy.stats\<close> and returns its p-value or raises. The categorical test of
  \<open>_calculate_categorical_probability\<close> (\<open>pd.crosstab\<close> and \<open>chi2_contingency\<close>) is
  library code as well; it is carried by the engine as the field \<open>chi2_test\<close>.
\<close>

type_synonym strategy = "series \<Rightarrow> series \<Rightarrow> error + real"

record engine =
  good_data :: dataframe
  bad_data :: dataframe
  fields_to_ignore :: "string list"
  numerical_strategy :: "strategy option"
  chi2_test :: strategy

definition MAX_PROBABILITY :: real where
  "MAX_PROBABILITY = 99999 / 100000"

section \<open>Multiple-comparison correction\<close>

definition priv_apply_bonferroni_correction :: "real list \<Rightarrow> real list" where
  "priv_apply_bonferroni_correction p_values =
     (let adjusted_p_values = map (\<lambda>p_value. p_value * real (length p_values)) p_values
      in map (\<lambda>p_value. min p_value 1) adjusted_p_values)"

definition unsupported_method :: "string \<Rightarrow> error" where
  "unsupported_method adjustment_method =
     ValueError (''Adjustment method '' @ [CHR 0x27] @ adjustment_method @ [CHR 0x27] @ '' is not supported.'')"

text \<open>
  \<open>adjust_p_values\<close> is a method of the engine. Its model returns the engine after the
  call next to the result, so that what the call does to the engine is part of the model.
\<close>

definition adjust_p_values :: "engine \<Rightarrow> real list \<Rightarrow> string \<Rightarrow> (error + real list) \<times> engine" where
  "adjust_p_values self p_values adjustment_method =
     (if adjustment_method = ''bonferroni''
      then (Inr (priv_apply_bonferroni_correction p_values), self)
      else (Inl (unsupported_method adjustment_method), self))"

section \<open>Score conversion\<close>

text \<open>\<open>_calculate_probability\<close>; the leading underscore of a private method is written \<open>priv_\<close>.\<close>

definition priv_calculate_probability :: "real \<Rightarrow> bool \<Rightarrow> real" where
  "priv_calculate_probability p_value is_additional =
     (let alpha = 5 / 100;
          probability =
            (if is_additional then MAX_PROBABILITY
             else if p_value < alpha then 1 - p_value
             else 0)
      in probability * 100)"

section \<open>The probability map\<close>

text \<open>
  The values of the dictionary built by \<open>_calculate_probabilities\<close> are tuples of two
  shapes, \<open>tuple[str, float, bool, str]\<close> for a field of one data frame only and
  \<open>tuple[float, bool, None]\<close> for an analysed field.
\<close>

datatype entry =
    Tuple4 string real bool string
  | Tuple3 real bool "string option"

definition MISSING_BAD_DATA :: entry where
  "MISSING_BAD_DATA = Tuple4 ''Missing in bad_data'' MAX_PROBABILITY True ''Missing in bad_data''"

definition ADDITIONAL_BAD_DATA :: entry where
  "ADDITIONAL_BAD_DATA = Tuple4 ''Additional in bad_data'' MAX_PROBABILITY True ''Additional in bad_data''"

text \<open>
  A Python \<open>dict\<close> keeps its keys in insertion order; storing under a key that is present
  replaces the value where it stands.
\<close>

type_synonym probabilities = "(string \<times> entry) list"

fun dict_set :: "probabilities \<Rightarrow> string \<Rightarrow> entry \<Rightarrow> probabilities" where
  "dict_set [] k v = [(k, v)]"
| "dict_set ((k', v') # d) k v = (if k' = k then (k, v) # d else (k', v') # dict_set d k v)"

text \<open>\<open>isinstance(x, (int, float))\<close> and \<open>isinstance(x, str)\<close>; \<open>bool\<close> is a subclass of \<open>int\<close>.\<close>

fun is_int_or_float :: "pyval \<Rightarrow> bool" where
  "is_int_or_float (PInt _) = True"
| "is_int_or_float (PFloat _) = True"
| "is_int_or_float (PBool _) = True"
| "is_int_or_float (PStr _) = False"

fun is_str :: "pyval \<Rightarrow> bool" where
  "is_str (PStr _) = True"
| "is_str _ = False"


text \<open>Calling the method of a strategy that is \<open>None\<close> raises \<open>AttributeError\<close>.\<close>

definition priv_calculate_numerical_probability :: "engine \<Rightarrow> series \<Rightarrow> series \<Rightarrow> error + real" where
  "priv_calculate_numerical_probability self good_values bad_values =
     (case numerical_strategy self of
        None \<Rightarrow> Inl AttributeError
      | Some strategy \<Rightarrow> strategy good_values bad_values)"

definition priv_calculate_categorical_probability :: "engine \<Rightarrow> series \<Rightarrow> series \<Rightarrow> error + real" where
  "priv_calculate_categorical_probability self good_values bad_values =
     chi2_test self good_values bad_values"

text \<open>
  The body of the first loop of \<open>_calculate_probabilities\<close>, for one column name of the
  reference data: the entry it stores under that name, \<open>None\<close> where it stores nothing
  (an ignored field, a column that is neither all numbers nor all strings), or the error
  a test raised.
\<close>

definition good_field_entry :: "engine \<Rightarrow> string \<Rightarrow> error + entry option" where
  "good_field_entry self field =
     (if field \<in> set (fields_to_ignore self) then Inr None
      else if field \<notin> set (columns (bad_data self)) then Inr (Some MISSING_BAD_DATA)
      else
        (case getitem (good_data self) field of
           Inl e \<Rightarrow> Inl e
         | Inr good_field_values \<Rightarrow>
            (case getitem (bad_data self) field of
               Inl e \<Rightarrow> Inl e
             | Inr bad_field_values \<Rightarrow>
                (if list_all is_int_or_float good_field_values then
                   (case priv_calculate_numerical_probability self good_field_values bad_field_values of
                      Inl e \<Rightarrow> Inl e
                    | Inr p_value \<Rightarrow> Inr (Some (Tuple3 p_value False None)))
                 else if list_all is_str good_field_values then
                   (case priv_calculate_categorical_probability self good_field_values bad_field_values of
                      Inl e \<Rightarrow> Inl e
                    | Inr p_value \<Rightarrow> Inr (Some (Tuple3 p_value False None)))
                 else Inr None))))"

fun good_loop :: "engine \<Rightarrow> string list \<Rightarrow> probabilities \<Rightarrow> error + probabilities" where
  "good_loop self [] probs = Inr probs"
| "good_loop self (field # rest) probs =
     (case good_field_entry self field of
        Inl e \<Rightarrow> Inl e
      | Inr None \<Rightarrow> good_loop self rest probs
      | Inr (Some v) \<Rightarrow> good_loop self rest (dict_set probs field v))"

text \<open>The second loop, over the column names of the candidate data; nothing in it raises.\<close>

fun bad_loop :: "engine \<Rightarrow> string list \<Rightarrow> probabilities \<Rightarrow> probabilities" where
  "bad_loop self [] probs = probs"
| "bad_loop self (field # rest) probs =
     (if field \<notin> set (columns (good_data self)) then
        if field \<notin> set (fields_to_ignore self)
        then bad_loop self rest (dict_set probs field ADDITIONAL_BAD_DATA)
        else bad_loop self rest probs
      else bad_loop self rest probs)"

definition priv_calculate_probabilities :: "engine \<Rightarrow> error + probabilities" where
  "priv_calculate_probabilities self =
     (case good_loop self (columns (good_data self)) [] of
        Inl e \<Rightarrow> Inl e
      | Inr probs \<Rightarrow> Inr (bad_loop self (columns (bad_data self)) probs))"

text \<open>
  Unpacking a dictionary value into \<open>(p_value, is_additional, details)\<close>: a tuple of four
  elements raises \<open>ValueError\<close>.
\<close>

definition too_many_values :: error where
  "too_many_values = ValueError ''too many values to unpack (expected 3)''"

fun unpack3 :: "entry \<Rightarrow> error + real \<times> bool \<times> string option" where
  "unpack3 (Tuple3 a b c) = Inr (a, b, c)"
| "unpack3 (Tuple4 _ _ _ _) = Inl too_many_values"

section \<open>Effect size\<close>

text \<open>
  \<open>Series.mean\<close> and \<open>Series.std\<close> return numpy floats. Where the result is not a real
  number (the mean of no values, the standard deviation of fewer than two, a division by
  zero) numpy returns \<open>nan\<close> or \<open>inf\<close> instead of raising; the model has one value,
  \<open>NanOrInf\<close>, for these, and it absorbs every operation it enters.
\<close>

datatype npfloat = Fin real | NanOrInf

fun np_op :: "(real \<Rightarrow> real \<Rightarrow> real) \<Rightarrow> npfloat \<Rightarrow> npfloat \<Rightarrow> npfloat" where
  "np_op f (Fin x) (Fin y) = Fin (f x y)"
| "np_op f _ _ = NanOrInf"

fun np_div :: "npfloat \<Rightarrow> npfloat \<Rightarrow> npfloat" where
  "np_div (Fin x) (Fin y) = (if y = 0 then NanOrInf else Fin (x / y))"
| "np_div _ _ = NanOrInf"

fun np_abs :: "npfloat \<Rightarrow> npfloat" where
  "np_abs (Fin x) = Fin \<bar>x\<bar>"
| "np_abs NanOrInf = NanOrInf"

fun np_square :: "npfloat \<Rightarrow> npfloat" where
  "np_square (Fin x) = Fin (x ^ 2)"
| "np_square NanOrInf = NanOrInf"

text \<open>The number a cell stands for in a reduction; a string has none.\<close>

fun to_float :: "pyval \<Rightarrow> real option" where
  "to_float (PInt i) = Some (of_int i)"
| "to_float (PFloat r) = Some r"
| "to_float (PBool b) = Some (of_bool b)"
| "to_float (PStr _) = None"

definition avg :: "real list \<Rightarrow> real" where
  "avg vs = sum_list vs / real (length vs)"

text \<open>The sample variance, with \<open>n - 1\<close> in the denominator as \<open>Series.std\<close> has it.\<close>

definition sample_var :: "real list \<Rightarrow> real" where
  "sample_var vs = sum_list (map (\<lambda>v. (v - avg vs) ^ 2) vs) / real (length vs - 1)"

definition series_mean :: "series \<Rightarrow> error + npfloat" where
  "series_mean xs =
     (case those (map to_float xs) of
        None \<Rightarrow> Inl TypeError
      | Some vs \<Rightarrow> Inr (if vs = [] then NanOrInf else Fin (avg vs)))"

definition series_std :: "series \<Rightarrow> error + npfloat" where
  "series_std xs =
     (case those (map to_float xs) of
        None \<Rightarrow> Inl TypeError
      | Some vs \<Rightarrow> Inr (if length vs < 2 then NanOrInf else Fin (sqrt (sample_var vs))))"

definition priv_calculate_effect_size :: "engine \<Rightarrow> real \<Rightarrow> string \<Rightarrow> error + npfloat" where
  "priv_calculate_effect_size self p_value field =
     (case getitem (good_data self) field of Inl e \<Rightarrow> Inl e | Inr good_values \<Rightarrow>
     (case getitem (bad_data self) field of Inl e \<Rightarrow> Inl e | Inr bad_values \<Rightarrow>
     (case series_mean good_values of Inl e \<Rightarrow> Inl e | Inr good_values_mean \<Rightarrow>
     (case series_mean bad_values of Inl e \<Rightarrow> Inl e | Inr bad_values_mean \<Rightarrow>
     (case series_std good_values of Inl e \<Rightarrow> Inl e | Inr good_values_std \<Rightarrow>
     (case series_std bad_values of Inl e \<Rightarrow> Inl e | Inr bad_values_std \<Rightarrow>
       (let pooled_std =
              np_div
                (np_op (+)
                   (np_op (*) (Fin (of_int (int (length good_values) - 1))) (np_square good_values_std))
                   (np_op (*) (Fin (of_int (int (length bad_values) - 1))) (np_square bad_values_std)))
                (Fin (of_int (int (length good_values) + int (length bad_values) - 2)));
            cohen_d = np_div (np_abs (np_op (-) good_values_mean bad_values_mean)) pooled_std
        in Inr cohen_d)))))))"

definition calculate_effect_size :: "engine \<Rightarrow> string \<Rightarrow> error + npfloat" where
  "calculate_effect_size self field =
     (if field \<in> set (fields_to_ignore self) then Inr (Fin 0)
      else
        (case priv_calculate_probabilities self of
           Inl e \<Rightarrow> Inl e
         | Inr probs \<Rightarrow>
            (case map_of probs field of
               None \<Rightarrow> Inr (Fin 0)
             | Some value \<Rightarrow>
                (case unpack3 value of
                   Inl e \<Rightarrow> Inl e
                 | Inr (p_value, _, _) \<Rightarrow> priv_calculate_effect_size self p_value field))))"

text \<open>
  The statistic as the specification words it, to compare with the code: the absolute
  difference of the means over the pooled standard deviation
  \<open>sqrt (((n1 - 1) * s1^2 + (n2 - 1) * s2^2) / (n1 + n2 - 2))\<close>.
\<close>

definition cohens_d_pooled_std :: "real list \<Rightarrow> real list \<Rightarrow> real" where
  "cohens_d_pooled_std xs ys =
     \<bar>avg xs - avg ys\<bar> /
       sqrt (((real (length xs) - 1) * sample_var xs + (real (length ys) - 1) * sample_var ys)
             / (real (length xs) + real (length ys) - 2))"

section \<open>The result table\<close>

record row =
  field :: string
  probability :: real
  extra_status :: bool
  details :: "string option"

fun run_loop :: "engine \<Rightarrow> probabilities \<Rightarrow> row list \<Rightarrow> error + row list" where
  "run_loop self [] results = Inr results"
| "run_loop self ((fld, value) # items) results =
     (case unpack3 value of
        Inl e \<Rightarrow> Inl e
      | Inr (p_value, is_additional, detail) \<Rightarrow>
          (let prob = priv_calculate_probability p_value is_additional in
           if fld \<notin> set (fields_to_ignore self)
           then run_loop self items
                  (results @ [\<lparr>field = fld, probability = prob,
                               extra_status = is_additional, details = detail\<rparr>])
           else run_loop self items results))"

text \<open>\<open>run\<close>: the list of rows is the data frame it returns, in this order.\<close>

definition run :: "engine \<Rightarrow> error + row list" where
  "run self =
     (case priv_calculate_probabilities self of
        Inl e \<Rightarrow> Inl e
      | Inr probs \<Rightarrow> run_loop self probs [])"

section \<open>Auxiliary notions for the statements\<close>

text \<open>
  The row \<open>run\<close> appends for a dictionary item whose value unpacks; no row is made of a
  value that does not.
\<close>

fun row_of :: "string \<Rightarrow> entry \<Rightarrow> row" where
  "row_of f (Tuple3 p a d) =
     \<lparr>field = f, probability = priv_calculate_probability p a, extra_status = a, details = d\<rparr>"

fun is_tuple3 :: "entry \<Rightarrow> bool" where
  "is_tuple3 (Tuple3 _ _ _) = True"
| "is_tuple3 (Tuple4 _ _ _ _) = False"

text \<open>A reference column that is all numbers or all strings.\<close>

definition analysable :: "engine \<Rightarrow> string \<Rightarrow> bool" where
  "analysable self f =
     (case map_of (good_data self) f of
        None \<Rightarrow> False
      | Some g \<Rightarrow> list_all is_int_or_float g \<or> list_all is_str g)"

text \<open>
  The order of the fields as the specification gives it: the reference columns in their
  order, without the ignored ones and without the shared ones that are not analysable,
  then the columns of the candidate alone, without the ignored ones.
\<close>

definition kept :: "engine \<Rightarrow> string \<Rightarrow> bool" where
  "kept self f =
     (f \<notin> set (fields_to_ignore self) \<and> (f \<in> set (columns (bad_data self)) \<longrightarrow> analysable self f))"

definition candidate_only :: "engine \<Rightarrow> string \<Rightarrow> bool" where
  "candidate_only self f =
     (f \<notin> set (columns (good_data self)) \<and> f \<notin> set (fields_to_ignore self))"

definition field_order :: "engine \<Rightarrow> string list" where
  "field_order self =
     filter (kept self) (columns (good_data self)) @
     filter (candidate_only self) (columns (bad_data self))"

text \<open>The contract of a statistical test: a p-value it returns lies between 0 and 1.\<close>

definition p_values_in_unit_interval :: "engine \<Rightarrow> bool" where
  "p_values_in_unit_interval self =
     (\<forall>g b p.
        (priv_calculate_numerical_probability self g b = Inr p \<longrightarrow> 0 \<le> p \<and> p \<le> 1) \<and>
        (priv_calculate_categorical_probability self g b = Inr p \<longrightarrow> 0 \<le> p \<and> p \<le> 1))"

text \<open>
  When \<open>run\<close> returns a table: every test that is called returns a p-value, and every
  field of one data frame only is ignored.
\<close>

definition no_drift :: "engine \<Rightarrow> bool" where
  "no_drift self =
     (list_all (\<lambda>f. f \<in> set (fields_to_ignore self) \<or> f \<in> set (columns (bad_data self)))
        (columns (good_data self))
      \<and> list_all (\<lambda>f. f \<in> set (fields_to_ignore self) \<or> f \<in> set (columns (good_data self)))
        (columns (bad_data self)))"

definition tests_return :: "engine \<Rightarrow> bool" where
  "tests_return self = list_all (\<lambda>f. \<not> isl (good_field_entry self f)) (columns (good_data self))"

text \<open>
  What the code divides the difference of the means by: the pooled variance, the
  radicand of the pooled standard deviation.
\<close>

definition pooled_variance :: "real list \<Rightarrow> real list \<Rightarrow> real" where
  "pooled_variance xs ys =
     ((real (length xs) - 1) * sample_var xs + (real (length ys) - 1) * sample_var ys)
       / (real (length xs) + real (length ys) - 2)"

section \<open>Example engines\<close>

text \<open>
  The tests of \<open>scipy.stats\<close> are not part of the repository; in the examples a strategy
  is a stand-in that returns a fixed p-value.
\<close>

definition const_strategy :: "real \<Rightarrow> strategy" where
  "const_strategy p good_values bad_values = Inr p"

text \<open>
  Two data frames that share a numeric column, a categorical one, one of booleans, one
  that mixes numbers and strings, and an ignored one; the reference has a column of its
  own and so has the candidate, both ignored.
\<close>

definition example_engine :: engine where
  "example_engine =
     \<lparr>good_data =
        [(''size'', [PInt 20, PInt 22, PInt 21, PInt 23, PInt 18]),
         (''color'', [PStr ''green'', PStr ''green'', PStr ''yellow'', PStr ''red'', PStr ''green'']),
         (''active'', [PBool True, PBool False, PBool True, PBool True, PBool False]),
         (''note'', [PInt 1, PStr ''a'', PInt 2, PStr ''b'', PInt 3]),
         (''id'', [PInt 1, PInt 2, PInt 3, PInt 4, PInt 5]),
         (''legacy'', [PInt 0, PInt 0, PInt 0, PInt 0, PInt 0])],
      bad_data =
        [(''size'', [PInt 35, PInt 32, PInt 40, PInt 30, PInt 38]),
         (''color'', [PStr ''red'', PStr ''green'', PStr ''red'', PStr ''red'', PStr ''yellow'']),
         (''active'', [PBool False, PBool False, PBool True, PBool False, PBool False]),
         (''note'', [PInt 1, PInt 2, PInt 3, PInt 4, PInt 5]),
         (''id'', [PInt 6, PInt 7, PInt 8, PInt 9, PInt 10]),
         (''debug'', [PStr ''x'', PStr ''y'', PStr ''x'', PStr ''y'', PStr ''x''])],
      fields_to_ignore = [''id'', ''legacy'', ''debug''],
      numerical_strategy = Some (const_strategy (1 / 1000)),
      chi2_test = const_strategy (1 / 2)\<rparr>"

definition example_table :: "row list" where
  "example_table =
     [\<lparr>field = ''size'', probability = 999 / 10, extra_status = False, details = None\<rparr>,
      \<lparr>field = ''color'', probability = 0, extra_status = False, details = None\<rparr>,
      \<lparr>field = ''active'', probability = 999 / 10, extra_status = False, details = None\<rparr>]"

text \<open>
  Two data frames that differ in their columns: \<open>weight\<close> is missing from the candidate
  and \<open>speed\<close> is additional in it.
\<close>

definition drift_engine :: engine where
  "drift_engine =
     \<lparr>good_data =
        [(''size'', [PInt 20, PInt 22, PInt 21]),
         (''weight'', [PInt 1, PInt 5, PInt 3])],
      bad_data =
        [(''size'', [PInt 35, PInt 32, PInt 40]),
         (''speed'', [PInt 7, PInt 8, PInt 9])],
      fields_to_ignore = [],
      numerical_strategy = Some (const_strategy (1 / 1000)),
      chi2_test = const_strategy (1 / 2)\<rparr>"

section \<open>Dictionaries\<close>

lemma map_of_dict_set: "map_of (dict_set d k v) = (map_of d)(k \<mapsto> v)"
  by (induction d) (auto simp: fun_eq_iff)

lemma keys_dict_set:
  "map fst (dict_set d k v) = (if k \<in> set (map fst d) then map fst d else map fst d @ [k])"
  by (induction d) force+

lemma distinct_dict_set: "distinct (map fst d) \<Longrightarrow> distinct (map fst (dict_set d k v))"
  by (simp add: keys_dict_set)

section \<open>The two loops of the probability map\<close>

lemma in_columns_iff: "f \<in> set (columns df) \<longleftrightarrow> map_of df f \<noteq> None"
  by (simp add: columns_def map_of_eq_None_iff)

lemma good_field_entry_shared:
  assumes "f \<notin> set (fields_to_ignore self)"
    and "map_of (good_data self) f = Some g" and "map_of (bad_data self) f = Some b"
  shows "good_field_entry self f =
     (if list_all is_int_or_float g then
        (case priv_calculate_numerical_probability self g b of
           Inl e \<Rightarrow> Inl e | Inr p \<Rightarrow> Inr (Some (Tuple3 p False None)))
      else if list_all is_str g then
        (case priv_calculate_categorical_probability self g b of
           Inl e \<Rightarrow> Inl e | Inr p \<Rightarrow> Inr (Some (Tuple3 p False None)))
      else Inr None)"
  using assms by (simp add: good_field_entry_def in_columns_iff getitem_def)

lemma good_field_entry_missing:
  assumes "f \<notin> set (fields_to_ignore self)" and "f \<notin> set (columns (bad_data self))"
  shows "good_field_entry self f = Inr (Some MISSING_BAD_DATA)"
  using assms by (simp add: good_field_entry_def)

lemma good_field_entry_kept:
  assumes "good_field_entry self f = Inr r" and "f \<in> set (columns (good_data self))"
  shows "r \<noteq> None \<longleftrightarrow> kept self f"
proof (cases "f \<in> set (fields_to_ignore self)")
  case True
  with assms show ?thesis by (simp add: good_field_entry_def kept_def)
next
  case ni: False
  show ?thesis
  proof (cases "f \<in> set (columns (bad_data self))")
    case False
    with ni assms show ?thesis by (auto simp: good_field_entry_def kept_def)
  next
    case True
    from assms(2) obtain g where g: "map_of (good_data self) f = Some g"
      by (auto simp: in_columns_iff)
    from True obtain b where b: "map_of (bad_data self) f = Some b"
      by (auto simp: in_columns_iff)
    from assms(1) ni True g show ?thesis
      unfolding good_field_entry_shared[OF ni g b]
      by (auto simp: kept_def analysable_def split: if_splits sum.splits)
  qed
qed

lemma good_loop_entries_ok:
  "good_loop self cs probs = Inr probs' \<Longrightarrow> f \<in> set cs \<Longrightarrow> \<exists>r. good_field_entry self f = Inr r"
proof (induction cs arbitrary: probs)
  case Nil
  then show ?case by simp
next
  case (Cons c cs)
  then show ?case
    by (cases "good_field_entry self c") (auto split: option.splits)
qed

lemma good_loop_map_of:
  "good_loop self cs probs = Inr probs' \<Longrightarrow>
   map_of probs' f =
     (if f \<in> set cs
      then (case good_field_entry self f of Inr (Some v) \<Rightarrow> Some v | _ \<Rightarrow> map_of probs f)
      else map_of probs f)"
proof (induction cs arbitrary: probs)
  case Nil
  then show ?case by simp
next
  case (Cons c cs)
  show ?case
  proof (cases "good_field_entry self c")
    case (Inl e)
    with Cons.prems show ?thesis by simp
  next
    case (Inr r)
    show ?thesis
    proof (cases r)
      case None
      with Cons.prems Inr have "good_loop self cs probs = Inr probs'" by simp
      from Cons.IH[OF this] Inr None show ?thesis by (auto split: sum.splits option.splits)
    next
      case (Some v)
      with Cons.prems Inr have "good_loop self cs (dict_set probs c v) = Inr probs'" by simp
      from Cons.IH[OF this] Inr Some show ?thesis by (auto simp: map_of_dict_set split: sum.splits option.splits)
    qed
  qed
qed

lemma good_loop_keys_distinct:
  "good_loop self cs probs = Inr probs' \<Longrightarrow> distinct (map fst probs) \<Longrightarrow> distinct (map fst probs')"
proof (induction cs arbitrary: probs)
  case Nil
  then show ?case by simp
next
  case (Cons c cs)
  then show ?case
    by (cases "good_field_entry self c") (auto split: option.splits intro: distinct_dict_set)
qed

lemma bad_loop_keys_distinct:
  "distinct (map fst probs) \<Longrightarrow> distinct (map fst (bad_loop self cs probs))"
  by (induction cs arbitrary: probs) (auto intro: distinct_dict_set)

lemma bad_loop_map_of:
  "map_of (bad_loop self cs probs) f =
     (if f \<in> set cs \<and> candidate_only self f then Some ADDITIONAL_BAD_DATA else map_of probs f)"
  by (induction cs arbitrary: probs) (auto simp: map_of_dict_set candidate_only_def)

lemma probabilities_map_of:
  assumes "priv_calculate_probabilities self = Inr probs"
  shows "map_of probs f =
     (if f \<in> set (columns (bad_data self)) \<and> candidate_only self f then Some ADDITIONAL_BAD_DATA
      else if f \<in> set (columns (good_data self))
      then (case good_field_entry self f of Inr (Some v) \<Rightarrow> Some v | _ \<Rightarrow> None)
      else None)"
proof -
  from assms obtain probs0 where
    g: "good_loop self (columns (good_data self)) [] = Inr probs0" and
    b: "probs = bad_loop self (columns (bad_data self)) probs0"
    by (auto simp: priv_calculate_probabilities_def split: sum.splits)
  show ?thesis
    unfolding b bad_loop_map_of good_loop_map_of[OF g] by (simp split: sum.splits option.splits)
qed

lemma probabilities_keys_distinct:
  assumes "priv_calculate_probabilities self = Inr probs"
  shows "distinct (map fst probs)"
proof -
  from assms obtain probs0 where
    g: "good_loop self (columns (good_data self)) [] = Inr probs0" and
    b: "probs = bad_loop self (columns (bad_data self)) probs0"
    by (auto simp: priv_calculate_probabilities_def split: sum.splits)
  from good_loop_keys_distinct[OF g] have "distinct (map fst probs0)" by simp
  then show ?thesis unfolding b by (rule bad_loop_keys_distinct)
qed

lemma probabilities_entries_ok:
  assumes "priv_calculate_probabilities self = Inr probs" "f \<in> set (columns (good_data self))"
  shows "\<exists>r. good_field_entry self f = Inr r"
proof -
  from assms obtain probs0 where
    g: "good_loop self (columns (good_data self)) [] = Inr probs0"
    by (auto simp: priv_calculate_probabilities_def split: sum.splits)
  from good_loop_entries_ok[OF g assms(2)] show ?thesis .
qed

lemma good_field_entry_ignored:
  "f \<in> set (fields_to_ignore self) \<Longrightarrow> good_field_entry self f = Inr None"
  by (simp add: good_field_entry_def)

lemma probabilities_not_ignored:
  assumes "priv_calculate_probabilities self = Inr probs" "f \<in> set (fields_to_ignore self)"
  shows "map_of probs f = None"
  using assms(2) unfolding probabilities_map_of[OF assms(1)]
  by (simp add: good_field_entry_ignored candidate_only_def)

lemma good_loop_keys:
  "good_loop self cs probs = Inr probs' \<Longrightarrow> set cs \<subseteq> set (columns (good_data self)) \<Longrightarrow>
   distinct cs \<Longrightarrow> set cs \<inter> set (map fst probs) = {} \<Longrightarrow>
   map fst probs' = map fst probs @ filter (kept self) cs"
proof (induction cs arbitrary: probs)
  case Nil
  then show ?case by simp
next
  case (Cons c cs)
  from Cons.prems(1) obtain r where r: "good_field_entry self c = Inr r"
    by (cases "good_field_entry self c") auto
  from Cons.prems(2) have cin: "c \<in> set (columns (good_data self))" by simp
  note k = good_field_entry_kept[OF r cin]
  show ?case
  proof (cases r)
    case None
    with Cons.prems r have "good_loop self cs probs = Inr probs'" by simp
    from Cons.IH[OF this] Cons.prems k None show ?thesis by auto
  next
    case (Some v)
    with Cons.prems r have gl: "good_loop self cs (dict_set probs c v) = Inr probs'" by simp
    from Cons.prems have fresh: "c \<notin> set (map fst probs)" by auto
    then have keys: "map fst (dict_set probs c v) = map fst probs @ [c]"
      by (simp add: keys_dict_set)
    from Cons.prems have "set cs \<inter> set (map fst (dict_set probs c v)) = {}"
      unfolding keys by auto
    from Cons.IH[OF gl _ _ this] Cons.prems k Some keys show ?thesis by auto
  qed
qed

lemma bad_loop_keys:
  "distinct cs \<Longrightarrow> set (map fst probs) \<subseteq> set (columns (good_data self)) \<union> A \<Longrightarrow>
   set cs \<inter> A = {} \<Longrightarrow>
   map fst (bad_loop self cs probs) = map fst probs @ filter (candidate_only self) cs"
proof (induction cs arbitrary: probs A)
  case Nil
  then show ?case by simp
next
  case (Cons c cs)
  show ?case
  proof (cases "candidate_only self c")
    case False
    then have "bad_loop self (c # cs) probs = bad_loop self cs probs"
      by (auto simp: candidate_only_def)
    moreover from Cons.prems have "map fst (bad_loop self cs probs) = map fst probs @ filter (candidate_only self) cs"
      by (intro Cons.IH[where A=A]) auto
    ultimately show ?thesis using False by simp
  next
    case True
    then have step: "bad_loop self (c # cs) probs = bad_loop self cs (dict_set probs c ADDITIONAL_BAD_DATA)"
      by (auto simp: candidate_only_def)
    from True Cons.prems have fresh: "c \<notin> set (map fst probs)"
      by (auto simp: candidate_only_def)
    then have keys: "map fst (dict_set probs c ADDITIONAL_BAD_DATA) = map fst probs @ [c]"
      by (simp add: keys_dict_set)
    have "map fst (bad_loop self cs (dict_set probs c ADDITIONAL_BAD_DATA)) =
          map fst (dict_set probs c ADDITIONAL_BAD_DATA) @ filter (candidate_only self) cs"
    proof (rule Cons.IH[where A="insert c A"])
      show "distinct cs" using Cons.prems by simp
      show "set (map fst (dict_set probs c ADDITIONAL_BAD_DATA)) \<subseteq> set (columns (good_data self)) \<union> insert c A"
        unfolding keys using Cons.prems by auto
      show "set cs \<inter> insert c A = {}" using Cons.prems by auto
    qed
    with step keys True show ?thesis by simp
  qed
qed

lemma probabilities_keys:
  assumes "priv_calculate_probabilities self = Inr probs"
    and "distinct (columns (good_data self))" and "distinct (columns (bad_data self))"
  shows "map fst probs = field_order self"
proof -
  from assms(1) obtain probs0 where
    g: "good_loop self (columns (good_data self)) [] = Inr probs0" and
    b: "probs = bad_loop self (columns (bad_data self)) probs0"
    by (auto simp: priv_calculate_probabilities_def split: sum.splits)
  from good_loop_keys[OF g _ assms(2)]
  have k0: "map fst probs0 = filter (kept self) (columns (good_data self))" by simp
  have "map fst (bad_loop self (columns (bad_data self)) probs0) =
        map fst probs0 @ filter (candidate_only self) (columns (bad_data self))"
    by (rule bad_loop_keys[where A="{}"]) (auto simp: assms(3) k0)
  then show ?thesis by (simp add: b k0 field_order_def)
qed

section \<open>The loop of run\<close>

lemma run_loop_rows:
  "run_loop self items results = Inr tbl \<Longrightarrow>
     list_all (\<lambda>(f, e). is_tuple3 e) items \<and>
     tbl = results @ map (\<lambda>(f, e). row_of f e) (filter (\<lambda>(f, e). f \<notin> set (fields_to_ignore self)) items)"
proof (induction items arbitrary: results)
  case Nil
  then show ?case by simp
next
  case (Cons it items)
  obtain f e where it: "it = (f, e)" by (cases it)
  show ?case
  proof (cases e)
    case (Tuple4 s p a d)
    with Cons.prems it show ?thesis by simp
  next
    case (Tuple3 p a d)
    show ?thesis
    proof (cases "f \<in> set (fields_to_ignore self)")
      case True
      with Cons.prems it Tuple3 have "run_loop self items results = Inr tbl" by simp
      from Cons.IH[OF this] it Tuple3 True show ?thesis by simp
    next
      case False
      with Cons.prems it Tuple3
      have "run_loop self items (results @ [row_of f e]) = Inr tbl" by (simp add: Let_def)
      from Cons.IH[OF this] it Tuple3 False show ?thesis by simp
    qed
  qed
qed

lemma run_loop_total:
  "list_all (\<lambda>(f, e). is_tuple3 e) items \<Longrightarrow> \<exists>tbl. run_loop self items results = Inr tbl"
proof (induction items arbitrary: results)
  case Nil
  then show ?case by simp
next
  case (Cons it items)
  obtain f e where it: "it = (f, e)" by (cases it)
  with Cons.prems obtain p a d where e: "e = Tuple3 p a d" by (cases e) auto
  from Cons.prems have "list_all (\<lambda>(f, e). is_tuple3 e) items" by simp
  from Cons.IH[OF this] it e show ?case by (simp add: Let_def)
qed

lemma run_loop_fails:
  "\<not> list_all (\<lambda>(f, e). is_tuple3 e) items \<Longrightarrow> run_loop self items results = Inl too_many_values"
proof (induction items arbitrary: results)
  case Nil
  then show ?case by simp
next
  case (Cons it items)
  obtain f e where it: "it = (f, e)" by (cases it)
  show ?case
  proof (cases e)
    case (Tuple4 s p a d)
    with it show ?thesis by simp
  next
    case (Tuple3 p a d)
    with Cons.prems it have "\<not> list_all (\<lambda>(f, e). is_tuple3 e) items" by simp
    from Cons.IH[OF this] it Tuple3 show ?thesis by (simp add: Let_def)
  qed
qed

lemma run_returns_iff:
  assumes "priv_calculate_probabilities self = Inr probs"
  shows "(\<exists>tbl. run self = Inr tbl) \<longleftrightarrow> list_all (\<lambda>(f, e). is_tuple3 e) probs"
  using assms run_loop_rows[of self probs "[]"] run_loop_total[of probs self "[]"]
  by (auto simp: run_def)

lemma field_row_of: "is_tuple3 e \<Longrightarrow> field (row_of f e) = f"
  by (cases e) auto

lemma run_rows:
  assumes "run self = Inr tbl"
  shows "\<exists>probs. priv_calculate_probabilities self = Inr probs
           \<and> list_all (\<lambda>(f, e). is_tuple3 e) probs
           \<and> tbl = map (\<lambda>(f, e). row_of f e) probs"
proof -
  from assms obtain probs where p: "priv_calculate_probabilities self = Inr probs"
    and r: "run_loop self probs [] = Inr tbl"
    by (auto simp: run_def split: sum.splits)
  have "filter (\<lambda>(f, e). f \<notin> set (fields_to_ignore self)) probs = probs"
  proof (rule filter_True, clarify)
    fix k e assume "(k, e) \<in> set probs" and "k \<in> set (fields_to_ignore self)"
    with probabilities_not_ignored[OF p, of k] show False
      by (force simp: map_of_eq_None_iff)
  qed
  with run_loop_rows[OF r] p show ?thesis by auto
qed

lemma run_fields:
  assumes "run self = Inr tbl" "priv_calculate_probabilities self = Inr probs"
  shows "map field tbl = map fst probs"
proof -
  from run_rows[OF assms(1)] assms(2)
  have t3: "list_all (\<lambda>(f, e). is_tuple3 e) probs" and tbl: "tbl = map (\<lambda>(f, e). row_of f e) probs"
    by auto
  have "map field (map (\<lambda>(f, e). row_of f e) probs) = map fst probs"
    using t3 by (induction probs) (auto simp: field_row_of)
  with tbl show ?thesis by simp
qed

lemma filter_key_unique:
  "distinct (map fst d) \<Longrightarrow> map_of d k = Some v \<Longrightarrow> filter (\<lambda>(k', e). k' = k) d = [(k, v)]"
proof (induction d)
  case Nil
  then show ?case by simp
next
  case (Cons a d)
  obtain k' e where a: "a = (k', e)" by (cases a)
  show ?case
  proof (cases "k' = k")
    case True
    with Cons.prems a have "k \<notin> fst ` set d" and "e = v" by auto
    then have "filter (\<lambda>(k', e). k' = k) d = []"
      by (force simp: filter_empty_conv)
    with True a \<open>e = v\<close> show ?thesis by simp
  next
    case False
    with Cons a show ?thesis by simp
  qed
qed

lemma filter_rows_of:
  "list_all (\<lambda>(f, e). is_tuple3 e) d \<Longrightarrow>
   filter (\<lambda>r. field r = k) (map (\<lambda>(f, e). row_of f e) d) =
   map (\<lambda>(f, e). row_of f e) (filter (\<lambda>(k', e). k' = k) d)"
  by (induction d) (auto simp: field_row_of)

lemma score_bounds: "0 \<le> p \<Longrightarrow> 0 \<le> priv_calculate_probability p a \<and> priv_calculate_probability p a \<le> 100"
  by (simp add: priv_calculate_probability_def MAX_PROBABILITY_def)

lemma run_shared_row:
  assumes run: "run self = Inr tbl" and ni: "f \<notin> set (fields_to_ignore self)"
    and g: "map_of (good_data self) f = Some g" and b: "map_of (bad_data self) f = Some b"
    and cls: "list_all is_int_or_float g \<or> list_all is_str g"
  shows "\<exists>p. (if list_all is_int_or_float g
               then priv_calculate_numerical_probability self g b
               else priv_calculate_categorical_probability self g b) = Inr p
           \<and> filter (\<lambda>r. field r = f) tbl =
               [\<lparr>field = f, probability = priv_calculate_probability p False,
                 extra_status = False, details = None\<rparr>]"
proof -
  from run_rows[OF run] obtain probs where
    p: "priv_calculate_probabilities self = Inr probs" and
    t3: "list_all (\<lambda>(f, e). is_tuple3 e) probs" and
    tbl: "tbl = map (\<lambda>(f, e). row_of f e) probs" by blast
  from g have fin: "f \<in> set (columns (good_data self))" by (simp add: in_columns_iff)
  from probabilities_entries_ok[OF p fin] obtain r where r: "good_field_entry self f = Inr r" ..
  from r cls obtain pv where
    pv: "(if list_all is_int_or_float g
               then priv_calculate_numerical_probability self g b
               else priv_calculate_categorical_probability self g b) = Inr pv"
    and rv: "r = Some (Tuple3 pv False None)"
    unfolding good_field_entry_shared[OF ni g b]
    by (auto split: if_splits sum.splits)
  from fin have "\<not> candidate_only self f" by (simp add: candidate_only_def)
  with fin r rv have m: "map_of probs f = Some (Tuple3 pv False None)"
    unfolding probabilities_map_of[OF p] by simp
  from filter_key_unique[OF probabilities_keys_distinct[OF p] m]
  have "filter (\<lambda>r. field r = f) tbl = [row_of f (Tuple3 pv False None)]"
    unfolding tbl filter_rows_of[OF t3] by simp
  with pv show ?thesis by auto
qed

lemma run_no_row:
  assumes run: "run self = Inr tbl" and p: "priv_calculate_probabilities self = Inr probs"
    and m: "map_of probs f = None"
  shows "filter (\<lambda>r. field r = f) tbl = []"
proof -
  from m have "f \<notin> set (map fst probs)" by (simp add: map_of_eq_None_iff)
  then have "f \<notin> set (map field tbl)" using run_fields[OF run p] by simp
  then show ?thesis by (auto simp: filter_empty_conv)
qed

lemma run_fails_on_drift:
  assumes "f \<notin> set (fields_to_ignore self)"
    and "f \<in> set (columns (good_data self)) \<and> f \<notin> set (columns (bad_data self))
       \<or> f \<in> set (columns (bad_data self)) \<and> f \<notin> set (columns (good_data self))"
  shows "\<exists>e. run self = Inl e"
proof (cases "priv_calculate_probabilities self")
  case (Inl e)
  then show ?thesis by (simp add: run_def)
next
  case (Inr probs)
  from assms have "map_of probs f = Some MISSING_BAD_DATA \<or> map_of probs f = Some ADDITIONAL_BAD_DATA"
    unfolding probabilities_map_of[OF Inr]
    by (auto simp: candidate_only_def good_field_entry_missing)
  then have "\<exists>e. (f, e) \<in> set probs \<and> \<not> is_tuple3 e"
    by (auto simp: MISSING_BAD_DATA_def ADDITIONAL_BAD_DATA_def dest!: map_of_SomeD)
  then have "\<not> list_all (\<lambda>(f, e). is_tuple3 e) probs"
    by (auto simp: list_all_iff)
  from run_loop_fails[OF this] Inr show ?thesis by (simp add: run_def)
qed

lemma good_loop_succeeds:
  "list_all (\<lambda>f. \<not> isl (good_field_entry self f)) cs \<Longrightarrow> \<exists>probs'. good_loop self cs probs = Inr probs'"
proof (induction cs arbitrary: probs)
  case Nil
  then show ?case by simp
next
  case (Cons c cs)
  then show ?case
    by (cases "good_field_entry self c") (auto split: option.splits)
qed

lemma good_field_entry_tuple3:
  assumes "good_field_entry self f = Inr (Some e)" and "f \<in> set (columns (bad_data self))"
  shows "is_tuple3 e"
  using assms
  by (auto simp: good_field_entry_def split: if_splits sum.splits)

lemma run_returns_iff_no_drift:
  "(\<exists>tbl. run self = Inr tbl) \<longleftrightarrow> tests_return self \<and> no_drift self"
proof
  assume "\<exists>tbl. run self = Inr tbl"
  then obtain tbl where run: "run self = Inr tbl" ..
  then obtain probs where p: "priv_calculate_probabilities self = Inr probs"
    by (auto simp: run_def split: sum.splits)
  have "tests_return self"
    unfolding tests_return_def list_all_iff
  proof
    fix f assume "f \<in> set (columns (good_data self))"
    from probabilities_entries_ok[OF p this] show "\<not> isl (good_field_entry self f)" by auto
  qed
  moreover have "no_drift self"
  proof (rule ccontr)
    assume "\<not> no_drift self"
    then obtain f where "f \<notin> set (fields_to_ignore self)"
      and "f \<in> set (columns (good_data self)) \<and> f \<notin> set (columns (bad_data self))
         \<or> f \<in> set (columns (bad_data self)) \<and> f \<notin> set (columns (good_data self))"
      by (auto simp: no_drift_def list_all_iff)
    from run_fails_on_drift[OF this] run show False by auto
  qed
  ultimately show "tests_return self \<and> no_drift self" ..
next
  assume a: "tests_return self \<and> no_drift self"
  then obtain probs0 where g: "good_loop self (columns (good_data self)) [] = Inr probs0"
    using good_loop_succeeds[of self "columns (good_data self)" "[]"]
    by (auto simp: tests_return_def)
  then have p: "priv_calculate_probabilities self =
      Inr (bad_loop self (columns (bad_data self)) probs0)"
    by (simp add: priv_calculate_probabilities_def)
  let ?probs = "bad_loop self (columns (bad_data self)) probs0"
  have "list_all (\<lambda>(f, e). is_tuple3 e) ?probs"
    unfolding list_all_iff
  proof (clarify)
    fix k e assume ke: "(k, e) \<in> set ?probs"
    with probabilities_keys_distinct[OF p] have m: "map_of ?probs k = Some e" by simp
    from a have nd: "no_drift self" ..
    show "is_tuple3 e"
    proof (cases "k \<in> set (columns (good_data self))")
      case True
      then have nc: "\<not> candidate_only self k" by (simp add: candidate_only_def)
      from m True nc have r: "good_field_entry self k = Inr (Some e)"
        unfolding probabilities_map_of[OF p] by (auto split: sum.splits option.splits)
      then have "k \<notin> set (fields_to_ignore self)"
        by (auto simp: good_field_entry_ignored)
      with nd True have "k \<in> set (columns (bad_data self))"
        by (auto simp: no_drift_def list_all_iff)
      from good_field_entry_tuple3[OF r this] show ?thesis .
    next
      case False
      with m have "k \<in> set (columns (bad_data self)) \<and> candidate_only self k"
        unfolding probabilities_map_of[OF p] by (auto split: if_splits)
      with nd False show ?thesis
        by (auto simp: no_drift_def list_all_iff candidate_only_def)
    qed
  qed
  with run_returns_iff[OF p] show "\<exists>tbl. run self = Inr tbl" by simp
qed

section \<open>The examples, evaluated\<close>

lemmas eval_defs = run_def priv_calculate_probabilities_def good_field_entry_def getitem_def columns_def
  priv_calculate_numerical_probability_def priv_calculate_categorical_probability_def const_strategy_def
  priv_calculate_probability_def MISSING_BAD_DATA_def ADDITIONAL_BAD_DATA_def MAX_PROBABILITY_def

lemma example_run: "run example_engine = Inr example_table"
  by (simp add: eval_defs example_engine_def example_table_def)

lemma example_unit_interval: "p_values_in_unit_interval example_engine"
  by (simp add: p_values_in_unit_interval_def priv_calculate_numerical_probability_def
      priv_calculate_categorical_probability_def example_engine_def const_strategy_def)

lemma drift_probabilities:
  "priv_calculate_probabilities drift_engine =
     Inr [(''size'', Tuple3 (1 / 1000) False None), (''weight'', MISSING_BAD_DATA),
          (''speed'', ADDITIONAL_BAD_DATA)]"
  by (simp add: eval_defs drift_engine_def)

section \<open>The effect size the code computes\<close>

lemma those_length: "those xs = Some ys \<Longrightarrow> length ys = length xs"
  by (induction xs arbitrary: ys) (auto split: option.splits)

lemma sample_var_nonneg: "0 \<le> sample_var vs"
  unfolding sample_var_def
  by (intro divide_nonneg_nonneg sum_list_nonneg) auto

lemma priv_calculate_effect_size_value:
  assumes g: "map_of (good_data self) f = Some g" and b: "map_of (bad_data self) f = Some b"
    and xs: "those (map to_float g) = Some xs" and ys: "those (map to_float b) = Some ys"
    and nx: "2 \<le> length xs" and ny: "2 \<le> length ys"
  shows "priv_calculate_effect_size self p f =
           Inr (np_div (Fin \<bar>avg xs - avg ys\<bar>) (Fin (pooled_variance xs ys)))"
proof -
  from those_length[OF xs] have lg: "length g = length xs" by simp
  from those_length[OF ys] have lb: "length b = length ys" by simp
  from nx have x0: "xs \<noteq> []" by auto
  from ny have y0: "ys \<noteq> []" by auto
  have sq: "(sqrt (sample_var vs)) ^ 2 = sample_var vs" for vs
    by (simp add: sample_var_nonneg)
  have ix: "real_of_int (int (length xs) - 1) = real (length xs) - 1" by simp
  have iy: "real_of_int (int (length ys) - 1) = real (length ys) - 1" by simp
  have ixy: "real_of_int (int (length xs) + int (length ys) - 2) = real (length xs) + real (length ys) - 2"
    by simp
  have den: "real (length xs) + real (length ys) - 2 \<noteq> 0" using nx ny by simp
  show ?thesis
    using nx ny x0 y0 den
    by (simp add: priv_calculate_effect_size_def getitem_def g b series_mean_def series_std_def
        xs ys lg lb sq ix iy ixy pooled_variance_def Let_def del: of_int_diff of_int_add)
qed

section \<open>Schema drift\<close>

text \<open>
  C1. The specification asks that \<open>run\<close> emit, for every field of the reference alone or
  of the candidate alone that is not ignored, one row with \<open>extra_status\<close> true and the
  probability 99.999. The probability map does hold an entry for each such field, but the
  entry is a tuple of four elements and \<open>run\<close> unpacks every entry into three names: on
  the data frames of \<open>drift_engine\<close> the map has the two drift entries and \<open>run\<close> raises
  \<open>ValueError\<close> instead of returning a table. Lemma \<open>run_fails_on_drift\<close> above is the
  general fact.
\<close>

theorem run_raises_on_drift:
  "priv_calculate_probabilities drift_engine =
     Inr [(''size'', Tuple3 (1 / 1000) False None),
          (''weight'', Tuple4 ''Missing in bad_data'' (99999 / 100000) True ''Missing in bad_data''),
          (''speed'', Tuple4 ''Additional in bad_data'' (99999 / 100000) True ''Additional in bad_data'')]
   \<and> run drift_engine = Inl (ValueError ''too many values to unpack (expected 3)'')"
  by (simp add: eval_defs drift_engine_def too_many_values_def)

text \<open>
  C10. For a field of the reference that the candidate lacks and that is not ignored,
  \<open>calculate_effect_size\<close> returns neither an effect size nor the sentinel 0: the call
  fails. Whenever the probability map is built, the entry of the field is
  \<open>MISSING_BAD_DATA\<close>, a tuple of four elements, and unpacking it into three names raises
  \<open>ValueError\<close>; when a test raised while the map was built, that error is the outcome.
\<close>

theorem effect_size_missing_field_fails:
  assumes fin: "f \<in> set (columns (good_data self))" and nb: "f \<notin> set (columns (bad_data self))"
    and ni: "f \<notin> set (fields_to_ignore self)"
  shows "(\<exists>e. calculate_effect_size self f = Inl e)
       \<and> (\<forall>probs. priv_calculate_probabilities self = Inr probs \<longrightarrow>
            map_of probs f = Some MISSING_BAD_DATA
            \<and> calculate_effect_size self f = Inl too_many_values)"
proof -
  have *: "map_of probs f = Some MISSING_BAD_DATA \<and> calculate_effect_size self f = Inl too_many_values"
    if p: "priv_calculate_probabilities self = Inr probs" for probs
  proof -
    from fin have "\<not> candidate_only self f" by (simp add: candidate_only_def)
    with fin have m: "map_of probs f = Some MISSING_BAD_DATA"
      unfolding probabilities_map_of[OF p] by (simp add: good_field_entry_missing[OF ni nb])
    with p ni show ?thesis
      by (simp add: calculate_effect_size_def MISSING_BAD_DATA_def)
  qed
  have "\<exists>e. calculate_effect_size self f = Inl e"
  proof (cases "priv_calculate_probabilities self")
    case (Inl e)
    with ni show ?thesis by (simp add: calculate_effect_size_def)
  next
    case (Inr probs)
    from *[OF this] show ?thesis by blast
  qed
  with * show ?thesis by blast
qed

theorem effect_size_missing_field_fails_witness:
  "''weight'' \<in> set (columns (good_data drift_engine))
   \<and> ''weight'' \<notin> set (columns (bad_data drift_engine))
   \<and> ''weight'' \<notin> set (fields_to_ignore drift_engine)
   \<and> calculate_effect_size drift_engine ''weight'' = Inl too_many_values"
proof -
  have a: "''weight'' \<in> set (columns (good_data drift_engine))"
    and b: "''weight'' \<notin> set (columns (bad_data drift_engine))"
    and c: "''weight'' \<notin> set (fields_to_ignore drift_engine)"
    by (simp_all add: drift_engine_def columns_def)
  from effect_size_missing_field_fails[OF a b c] drift_probabilities a b c
  show ?thesis by blast
qed

section \<open>The score\<close>



section \<open>Rows of shared and ignored fields\<close>

text \<open>
  C4. In the table \<open>run\<close> returns, a field of both data frames that is not ignored and
  whose reference column is all numbers or all strings has exactly one row, with a
  probability between 0 and 100 (the tests returning p-values between 0 and 1); a shared
  field whose reference column is neither has no row.
\<close>

theorem shared_field_one_row:
  assumes run: "run self = Inr tbl" and ni: "f \<notin> set (fields_to_ignore self)"
    and g: "map_of (good_data self) f = Some g" and b: "map_of (bad_data self) f = Some b"
    and unit: "p_values_in_unit_interval self"
  shows "(list_all is_int_or_float g \<or> list_all is_str g \<longrightarrow>
            (\<exists>r. filter (\<lambda>r. field r = f) tbl = [r] \<and> 0 \<le> probability r \<and> probability r \<le> 100))
       \<and> (\<not> list_all is_int_or_float g \<and> \<not> list_all is_str g \<longrightarrow>
            filter (\<lambda>r. field r = f) tbl = [])"
proof (intro conjI impI)
  assume cls: "list_all is_int_or_float g \<or> list_all is_str g"
  from run_shared_row[OF run ni g b cls] obtain p where
    pv: "(if list_all is_int_or_float g
               then priv_calculate_numerical_probability self g b
               else priv_calculate_categorical_probability self g b) = Inr p"
    and row: "filter (\<lambda>r. field r = f) tbl =
               [\<lparr>field = f, probability = priv_calculate_probability p False,
                 extra_status = False, details = None\<rparr>]" by blast
  from pv unit have "0 \<le> p"
    unfolding p_values_in_unit_interval_def by (auto split: if_splits)
  from score_bounds[OF this, of False] row
  show "\<exists>r. filter (\<lambda>r. field r = f) tbl = [r] \<and> 0 \<le> probability r \<and> probability r \<le> 100"
    by simp
next
  assume mixed: "\<not> list_all is_int_or_float g \<and> \<not> list_all is_str g"
  from run obtain probs where p: "priv_calculate_probabilities self = Inr probs"
    by (auto simp: run_def split: sum.splits)
  from g have fin: "f \<in> set (columns (good_data self))" by (simp add: in_columns_iff)
  then have "\<not> candidate_only self f" by (simp add: candidate_only_def)
  moreover from mixed have "good_field_entry self f = Inr None"
    unfolding good_field_entry_shared[OF ni g b] by simp
  ultimately have "map_of probs f = None"
    unfolding probabilities_map_of[OF p] by simp
  from run_no_row[OF run p this] show "filter (\<lambda>r. field r = f) tbl = []" .
qed

theorem shared_field_one_row_witness:
  "run example_engine = Inr example_table
   \<and> p_values_in_unit_interval example_engine
   \<and> (\<exists>r. filter (\<lambda>r. field r = ''size'') example_table = [r]
          \<and> 0 \<le> probability r \<and> probability r \<le> 100)
   \<and> (\<exists>r. filter (\<lambda>r. field r = ''color'') example_table = [r]
          \<and> 0 \<le> probability r \<and> probability r \<le> 100)
   \<and> filter (\<lambda>r. field r = ''note'') example_table = []"
proof -
  have ni: "f \<notin> set (fields_to_ignore example_engine)"
    if "f \<noteq> ''id''" "f \<noteq> ''legacy''" "f \<noteq> ''debug''" for f
    using that by (simp add: example_engine_def)
  have "\<exists>r. filter (\<lambda>r. field r = ''size'') example_table = [r]
          \<and> 0 \<le> probability r \<and> probability r \<le> 100"
    using shared_field_one_row[OF example_run ni _ _ example_unit_interval, of "''size''"
        "[PInt 20, PInt 22, PInt 21, PInt 23, PInt 18]" "[PInt 35, PInt 32, PInt 40, PInt 30, PInt 38]"]
    by (simp add: example_engine_def)
  moreover have "\<exists>r. filter (\<lambda>r. field r = ''color'') example_table = [r]
          \<and> 0 \<le> probability r \<and> probability r \<le> 100"
    using shared_field_one_row[OF example_run ni _ _ example_unit_interval, of "''color''"
        "[PStr ''green'', PStr ''green'', PStr ''yellow'', PStr ''red'', PStr ''green'']"
        "[PStr ''red'', PStr ''green'', PStr ''red'', PStr ''red'', PStr ''yellow'']"]
    by (simp add: example_engine_def)
  moreover have "filter (\<lambda>r. field r = ''note'') example_table = []"
    using shared_field_one_row[OF example_run ni _ _ example_unit_interval, of "''note''"
        "[PInt 1, PStr ''a'', PInt 2, PStr ''b'', PInt 3]" "[PInt 1, PInt 2, PInt 3, PInt 4, PInt 5]"]
    by (simp add: example_engine_def)
  ultimately show ?thesis using example_run example_unit_interval by simp
qed

text \<open>
  C5. In the table \<open>run\<close> returns there is no row for a field of the ignore list, whatever
  data frames the field belongs to and whatever its test would say.
\<close>

theorem ignored_field_no_row:
  assumes "run self = Inr tbl" and "f \<in> set (fields_to_ignore self)"
  shows "filter (\<lambda>r. field r = f) tbl = []"
proof -
  from assms(1) obtain probs where p: "priv_calculate_probabilities self = Inr probs"
    by (auto simp: run_def split: sum.splits)
  from run_no_row[OF assms(1) p probabilities_not_ignored[OF p assms(2)]] show ?thesis .
qed

theorem ignored_field_no_row_witness:
  "set (fields_to_ignore example_engine) = {''id'', ''legacy'', ''debug''}
   \<and> ''id'' \<in> set (columns (good_data example_engine))
   \<and> ''id'' \<in> set (columns (bad_data example_engine))
   \<and> ''legacy'' \<in> set (columns (good_data example_engine))
   \<and> ''legacy'' \<notin> set (columns (bad_data example_engine))
   \<and> ''debug'' \<notin> set (columns (good_data example_engine))
   \<and> ''debug'' \<in> set (columns (bad_data example_engine))
   \<and> run example_engine = Inr example_table
   \<and> filter (\<lambda>r. field r = ''id'') example_table = []
   \<and> filter (\<lambda>r. field r = ''legacy'') example_table = []
   \<and> filter (\<lambda>r. field r = ''debug'') example_table = []"
proof -
  have i: "set (fields_to_ignore example_engine) = {''id'', ''legacy'', ''debug''}"
    by (simp add: example_engine_def)
  have c: "''id'' \<in> set (columns (good_data example_engine))"
      "''id'' \<in> set (columns (bad_data example_engine))"
      "''legacy'' \<in> set (columns (good_data example_engine))"
      "''legacy'' \<notin> set (columns (bad_data example_engine))"
      "''debug'' \<notin> set (columns (good_data example_engine))"
      "''debug'' \<in> set (columns (bad_data example_engine))"
    by (simp_all add: example_engine_def columns_def)
  have "filter (\<lambda>r. field r = ''id'') example_table = []"
    using ignored_field_no_row[OF example_run, of "''id''"] i by simp
  moreover have "filter (\<lambda>r. field r = ''legacy'') example_table = []"
    using ignored_field_no_row[OF example_run, of "''legacy''"] i by simp
  moreover have "filter (\<lambda>r. field r = ''debug'') example_table = []"
    using ignored_field_no_row[OF example_run, of "''debug''"] i by simp
  ultimately show ?thesis using i c example_run by simp
qed

text \<open>
  C8. The keys of the probability map, and with them the rows of the table \<open>run\<close>
  returns, stand in the order \<open>field_order\<close>: the reference columns in their order,
  without the ignored ones and the shared ones that are not analysable, then the columns
  of the candidate alone in their order, without the ignored ones. A column of the
  reference alone is a drift case whatever it holds, and is kept. Column names are
  distinct within a data frame.
\<close>

theorem rows_in_field_order:
  assumes "distinct (columns (good_data self))" and "distinct (columns (bad_data self))"
  shows "(\<forall>probs. priv_calculate_probabilities self = Inr probs \<longrightarrow> map fst probs = field_order self)
       \<and> (\<forall>tbl. run self = Inr tbl \<longrightarrow> map field tbl = field_order self)"
proof (intro conjI allI impI)
  fix probs assume "priv_calculate_probabilities self = Inr probs"
  from probabilities_keys[OF this assms] show "map fst probs = field_order self" .
next
  fix tbl assume run: "run self = Inr tbl"
  then obtain probs where p: "priv_calculate_probabilities self = Inr probs"
    by (auto simp: run_def split: sum.splits)
  from run_fields[OF run p] probabilities_keys[OF p assms]
  show "map field tbl = field_order self" by simp
qed

theorem rows_in_field_order_witness:
  "map field example_table = field_order example_engine
   \<and> field_order example_engine = [''size'', ''color'', ''active'']
   \<and> field_order drift_engine = [''size'', ''weight'', ''speed'']"
proof -
  have d: "distinct (columns (good_data example_engine))" "distinct (columns (bad_data example_engine))"
    by (simp_all add: example_engine_def columns_def)
  have d': "distinct (columns (good_data drift_engine))" "distinct (columns (bad_data drift_engine))"
    by (simp_all add: drift_engine_def columns_def)
  from rows_in_field_order[OF d] example_run
  have 1: "map field example_table = field_order example_engine" by blast
  from rows_in_field_order[OF d'] drift_probabilities
  have "map fst [(''size'', Tuple3 (1 / 1000) False None), (''weight'', MISSING_BAD_DATA),
          (''speed'', ADDITIONAL_BAD_DATA)] = field_order drift_engine" by blast
  then have 2: "field_order drift_engine = [''size'', ''weight'', ''speed'']" by simp
  from 1 have "field_order example_engine = [''size'', ''color'', ''active'']"
    by (simp add: example_table_def)
  with 1 2 show ?thesis by simp
qed

section \<open>Columns of booleans\<close>




section \<open>Effect size against the pooled standard deviation\<close>

text \<open>
  C3. The specification gives the effect size as the absolute difference of the means
  over the pooled standard deviation. The code computes the value it calls \<open>pooled_std\<close>
  without the square root and so divides by the pooled variance (lemma
  \<open>priv_calculate_effect_size_value\<close>). On the reference values 20, 22, 21, 23, 18 and the
  candidate values 35, 32, 40, 30, 38 it returns 284/207, below 2, where the statistic of
  the specification is above 4.
\<close>

theorem effect_size_example:
  "calculate_effect_size example_engine ''size'' = Inr (Fin (284 / 207))
   \<and> cohens_d_pooled_std [20, 22, 21, 23, 18] [35, 32, 40, 30, 38] = (71 / 5) / sqrt (207 / 20)
   \<and> (284 / 207 :: real) < 2
   \<and> 4 < (71 / 5) / sqrt (207 / 20)"
proof -
  have code: "calculate_effect_size example_engine ''size'' = Inr (Fin (284 / 207))"
    by (simp add: eval_defs example_engine_def calculate_effect_size_def
        priv_calculate_effect_size_def series_mean_def series_std_def avg_def sample_var_def
        power2_eq_square)
  have spec: "cohens_d_pooled_std [20, 22, 21, 23, 18] [35, 32, 40, 30, 38] = (71 / 5) / sqrt (207 / 20)"
    by (simp add: cohens_d_pooled_std_def avg_def sample_var_def power2_eq_square)
  have "sqrt (207 / 20) < sqrt ((71 / 20) ^ 2)"
    by (subst real_sqrt_less_iff) (simp add: power2_eq_square)
  then have "sqrt (207 / 20) < 71 / 20" by simp
  moreover have "0 < sqrt (207 / 20)" by simp
  ultimately have "4 < (71 / 5) / sqrt (207 / 20)" by (simp add: field_simps)
  with code spec show ?thesis by simp
qed

section \<open>Multiple-comparison correction, the supported method\<close>

text \<open>
  C6. With the method \<open>bonferroni\<close>, \<open>adjust_p_values\<close> returns a list as long as its
  input whose entries are \<open>min (p * len ps) 1\<close>, entry by entry; on
  \<open>[0.01, 0.02, 0.5]\<close> it returns \<open>[0.03, 0.06, 1.0]\<close>.
\<close>

theorem adjust_p_values_bonferroni:
  "fst (adjust_p_values self ps ''bonferroni'') = Inr (map (\<lambda>p. min (p * real (length ps)) 1) ps)
   \<and> (\<exists>qs. fst (adjust_p_values self ps ''bonferroni'') = Inr qs \<and> length qs = length ps)
   \<and> fst (adjust_p_values self [1/100, 2/100, 1/2] ''bonferroni'') = Inr [3/100, 6/100, 1]"
  by (simp add: adjust_p_values_def priv_apply_bonferroni_correction_def)

text \<open>
  C7. With any other method, \<open>adjust_p_values\<close> raises the error that names the method
  as unsupported, returns no list, and leaves the engine as it was.
\<close>

theorem adjust_p_values_unsupported:
  "m \<noteq> ''bonferroni'' \<Longrightarrow> adjust_p_values self ps m = (Inl (unsupported_method m), self)"
  by (simp add: adjust_p_values_def)

theorem adjust_p_values_unsupported_witness:
  "adjust_p_values example_engine [1 / 100, 2 / 100, 1 / 2] ''holm''
     = (Inl (unsupported_method ''holm''), example_engine)"
  using adjust_p_values_unsupported[of "''holm''" example_engine "[1 / 100, 2 / 100, 1 / 2]"] by simp

end
